theory Spec2Isabelle
  imports Main "HOL-Library.Sublist"
begin

section \<open>Values of the source language\<close>

text \<open>
  The converter \<^verbatim>\<open>abnconv.py\<close> is a Python program. Its exceptions are values of
  the type \<open>error\<close>; a function that can raise returns \<open>error + 'a\<close>, with \<open>Inl\<close> for
  the exception. Strings are byte lists.
\<close>

datatype error = ValueError string | KeyError string

text \<open>
  \<^verbatim>\<open>tsx.amount\<close> is a Python \<^verbatim>\<open>float\<close>. The program only multiplies it by \<open>-1\<close>,
  compares it with \<^verbatim>\<open>==\<close> and prints it with \<^verbatim>\<open>str\<close>, so a float is kept as its
  sign bit and the shortest decimal text of its magnitude, the text that \<^verbatim>\<open>str\<close> prints
  and that determines the magnitude (\<^verbatim>\<open>0.0\<close> for zero, \<^verbatim>\<open>12.5\<close>, \<^verbatim>\<open>inf\<close>). The
  not-a-number value is apart: it prints as \<^verbatim>\<open>nan\<close> and is equal to nothing.
\<close>

datatype pyfloat = PyFloat bool string | PyNaN


fun float_eq :: "pyfloat \<Rightarrow> pyfloat \<Rightarrow> bool" where
  \<comment> \<open>\<^verbatim>\<open>x == y\<close>: the two zeros are equal, a NaN is equal to nothing.\<close>
  "float_eq (PyFloat s m) (PyFloat s' m') = (m = m' \<and> (s = s' \<or> m = ''0.0''))"
| "float_eq _ _ = False"

fun float_str :: "pyfloat \<Rightarrow> string" where
  \<comment> \<open>\<^verbatim>\<open>str(x)\<close>\<close>
  "float_str (PyFloat s m) = (if s then ''-'' @ m else m)"
| "float_str PyNaN = ''nan''"



text \<open>
  \<^verbatim>\<open>tsx.date\<close> is the \<^verbatim>\<open>datetime\<close> that \<^verbatim>\<open>strptime(..., "%Y-%m-%d")\<close> returns: a
  calendar day, the time of day being midnight. \<^verbatim>\<open>strftime\<close> prints the year on four
  digits and month and day on two; the years of statement dates have four digits.
\<close>

record datetime =
  year :: nat
  month :: nat
  day :: nat

definition digit :: "nat \<Rightarrow> char" where
  "digit n = ''0123456789'' ! (n mod 10)"

definition pad2 :: "nat \<Rightarrow> string" where
  "pad2 n = [digit (n div 10), digit n]"

definition pad4 :: "nat \<Rightarrow> string" where
  "pad4 n = [digit (n div 1000), digit (n div 100), digit (n div 10), digit n]"

definition strftime :: "datetime \<Rightarrow> string \<Rightarrow> string" where
  \<comment> \<open>\<^verbatim>\<open>d.strftime("%Y" + sep + "%m" + sep + "%d")\<close>\<close>
  "strftime d sep = pad4 (year d) @ sep @ pad2 (month d) @ sep @ pad2 (day d)"

definition str_opt :: "string option \<Rightarrow> string" where
  \<comment> \<open>\<^verbatim>\<open>"%s" % v\<close> for a value that is a string or \<^verbatim>\<open>None\<close>\<close>
  "str_opt v = (case v of None \<Rightarrow> ''None'' | Some s \<Rightarrow> s)"

section \<open>The transaction record\<close>

text \<open>
  Class \<^verbatim>\<open>Trsx\<close>. \<^verbatim>\<open>dest_iban\<close>, \<^verbatim>\<open>payee\<close> and \<^verbatim>\<open>memo\<close> can stay \<^verbatim>\<open>None\<close>; the other
  fields are set on every record that \<^verbatim>\<open>process_entry\<close> returns. The field \<^verbatim>\<open>type\<close> is
  named \<open>ttype\<close> here.
\<close>

record Trsx =
  source_iban :: string
  dest_iban :: "string option"
  ttype :: string
  date :: datetime
  amount :: pyfloat
  payee :: "string option"
  memo :: "string option"
  transaction_desc :: string

text \<open>The account registry, the global \<^verbatim>\<open>accounts\<close>: a dictionary from IBAN to name.\<close>

type_synonym registry = "string \<rightharpoonup> string"

definition trsx_eq :: "Trsx \<Rightarrow> Trsx \<Rightarrow> bool" where
  \<comment> \<open>\<^verbatim>\<open>Trsx.__eq__\<close>; \<^verbatim>\<open>transaction_desc\<close> is commented out of the comparison.\<close>
  "trsx_eq self other =
     (source_iban self = source_iban other
      \<and> dest_iban self = dest_iban other
      \<and> ttype self = ttype other
      \<and> date self = date other
      \<and> float_eq (amount self) (amount other)
      \<and> payee self = payee other
      \<and> memo self = memo other)"

definition trsx_hash :: "Trsx \<Rightarrow> string" where
  \<comment> \<open>\<^verbatim>\<open>Trsx.__hash__\<close>: the hash of the formatted string; two hashes are the same
      exactly when the strings are.\<close>
  "trsx_hash self =
     source_iban self @ ''-'' @ str_opt (dest_iban self) @ ''-''
     @ strftime (date self) '''' @ ''-'' @ float_str (amount self) @ ''/''
     @ str_opt (memo self)"

definition is_transfer_transaction :: "registry \<Rightarrow> Trsx \<Rightarrow> bool" where
  \<comment> \<open>\<^verbatim>\<open>self.dest_iban in accounts\<close>\<close>
  "is_transfer_transaction accounts self =
     (case dest_iban self of None \<Rightarrow> False | Some d \<Rightarrow> d \<in> dom accounts)"


section \<open>Regular expressions\<close>

text \<open>
  The patterns of the program use literals, single characters of a class, a greedy
  \<^verbatim>\<open>+\<close> on a class, concatenation, alternation and groups. \<open>rx_match\<close> lists every
  way a pattern matches at the start of a string, in the order in which the backtracking
  matcher of \<^verbatim>\<open>re\<close> tries them (a greedy repetition tries the longest first, an
  alternation its left branch first): each way is the groups captured and the rest of the
  string. The first way is the match \<^verbatim>\<open>re\<close> reports. Characters are bytes, so the classes
  \<^verbatim>\<open>\d\<close>, \<^verbatim>\<open>\s\<close> and \<^verbatim>\<open>\w\<close> are their ASCII members.
\<close>

datatype cls = Dot | Digit | Space | Word | Chars string

fun in_cls :: "cls \<Rightarrow> char \<Rightarrow> bool" where
  "in_cls Dot c = (c \<noteq> CHR 0x0A)"
| "in_cls Digit c = (c \<in> set ''0123456789'')"
| "in_cls Space c = (c \<in> set [CHR '' '', CHR 0x09, CHR 0x0A, CHR 0x0B, CHR 0x0C, CHR 0x0D,
                                  CHR 0x1C, CHR 0x1D, CHR 0x1E, CHR 0x1F])"
| "in_cls Word c =
     (c \<in> set ''abcdefghijklmnopqrstuvwxyzABCDEFGHIJKLMNOPQRSTUVWXYZ0123456789_'')"
| "in_cls (Chars cs) c = (c \<in> set cs)"

datatype rx = Lit string | One cls | Plus cls | Seq rx rx | Alt rx rx | Grp string rx

type_synonym groups = "(string \<times> string) list"

fun rx_match :: "rx \<Rightarrow> groups \<Rightarrow> string \<Rightarrow> (groups \<times> string) list" where
  "rx_match (Lit l) g s = (if take (length l) s = l then [(g, drop (length l) s)] else [])"
| "rx_match (One c) g s =
     (case s of [] \<Rightarrow> [] | x # xs \<Rightarrow> if in_cls c x then [(g, xs)] else [])"
| "rx_match (Plus c) g s =
     map (\<lambda>k. (g, drop k s)) (rev [1 ..< Suc (length (takeWhile (in_cls c) s))])"
| "rx_match (Seq a b) g s =
     concat (map (\<lambda>p. rx_match b (fst p) (snd p)) (rx_match a g s))"
| "rx_match (Alt a b) g s = rx_match a g s @ rx_match b g s"
| "rx_match (Grp n a) g s =
     map (\<lambda>p. ((n, take (length s - length (snd p)) s) # fst p, snd p)) (rx_match a g s)"

fun seqs :: "rx list \<Rightarrow> rx" where
  \<comment> \<open>the concatenation of the parts of a pattern\<close>
  "seqs [] = Lit []"
| "seqs [r] = r"
| "seqs (r # rs) = Seq r (seqs rs)"

fun alts :: "rx list \<Rightarrow> rx" where
  "alts [] = One (Chars [])"
| "alts [r] = r"
| "alts (r # rs) = Alt r (alts rs)"

text \<open>
  A match object: where the match starts and ends in the searched string, and its groups.
  \<^verbatim>\<open>m.group(n)\<close> is \<open>match_group m n\<close>, \<^verbatim>\<open>None\<close> for a group that did not take part.
\<close>

record rmatch =
  mstart :: nat
  mend :: nat
  mgroups :: groups

definition match_group :: "rmatch \<Rightarrow> string \<Rightarrow> string option" where
  "match_group m n = map_of (mgroups m) n"

fun search_from :: "rx \<Rightarrow> nat \<Rightarrow> string \<Rightarrow> rmatch option" where
  \<comment> \<open>\<^verbatim>\<open>pattern.search\<close>: the first position, from the left, where the pattern matches\<close>
  "search_from r pos [] =
     (case rx_match r [] [] of
        p # _ \<Rightarrow> Some \<lparr> mstart = pos, mend = pos, mgroups = fst p \<rparr>
      | [] \<Rightarrow> None)"
| "search_from r pos (c # cs) =
     (case rx_match r [] (c # cs) of
        p # _ \<Rightarrow> Some \<lparr> mstart = pos, mend = pos + (length (c # cs) - length (snd p)),
                         mgroups = fst p \<rparr>
      | [] \<Rightarrow> search_from r (Suc pos) cs)"

definition search :: "rx \<Rightarrow> string \<Rightarrow> rmatch option" where
  "search r s = search_from r 0 s"

function finditer_from :: "rx \<Rightarrow> nat \<Rightarrow> string \<Rightarrow> rmatch list" where
  \<comment> \<open>\<^verbatim>\<open>pattern.finditer\<close>: the matches from left to right, each search starting where
      the match before ended. A match of no character ends the scan here; the one pattern
      iterated by the program matches at least five characters.\<close>
  "finditer_from r pos s =
     (case search_from r pos s of
        None \<Rightarrow> []
      | Some m \<Rightarrow>
          m # (if pos < mend m \<and> s \<noteq> []
               then finditer_from r (mend m) (drop (mend m - pos) s)
               else []))"
  by pat_completeness auto
termination
  apply (relation "measure (\<lambda>(r, pos, s). length s)")
   apply simp
  subgoal for r pos s m
    by (cases s) auto
  done

declare finditer_from.simps [simp del]

definition finditer :: "rx \<Rightarrow> string \<Rightarrow> rmatch list" where
  "finditer r s = finditer_from r 0 s"

section \<open>The narrative classifier\<close>


definition SEPA_re :: rx where
  "SEPA_re = seqs [Lit ''/TRTP/'', Plus Dot]"

definition SEPA_markers_re :: rx where
  "SEPA_markers_re =
     seqs [Lit ''/'',
           Grp ''1'' (alts [Lit ''TRTP'', Lit ''CSID'', Lit ''NAME'', Lit ''MARF'',
                            Lit ''REMI'', Lit ''IBAN'', Lit ''BIC'', Lit ''EREF'']),
           Lit ''/'']"



definition slice :: "string \<Rightarrow> nat \<Rightarrow> nat \<Rightarrow> string" where
  \<comment> \<open>\<^verbatim>\<open>s[i:j]\<close> for indices that are not negative\<close>
  "slice s i j = take (j - i) (drop i s)"

text \<open>
  The loop of \<^verbatim>\<open>find_sepa_field\<close> over the marker matches; \<open>start\<close> is the local
  variable of that name. \<^verbatim>\<open>elif start:\<close> holds for a number that is not zero.
\<close>

fun find_sepa_field_loop ::
  "string \<Rightarrow> string \<Rightarrow> nat option \<Rightarrow> rmatch list \<Rightarrow> string option" where
  "find_sepa_field_loop transaction_info field start [] = None"
| "find_sepa_field_loop transaction_info field start (marker_match # rest) =
     (if match_group marker_match ''1'' = Some field
      then find_sepa_field_loop transaction_info field (Some (mend marker_match)) rest
      else case start of
        None \<Rightarrow> find_sepa_field_loop transaction_info field start rest
      | Some st \<Rightarrow>
          if st \<noteq> 0 then Some (slice transaction_info st (mstart marker_match))
          else find_sepa_field_loop transaction_info field start rest)"

definition find_sepa_field :: "string \<Rightarrow> string \<Rightarrow> string option" where
  "find_sepa_field transaction_info field =
     (if search SEPA_re transaction_info \<noteq> None
      then find_sepa_field_loop transaction_info field None
             (finditer SEPA_markers_re transaction_info)
      else None)"





section \<open>The output\<close>

definition nl :: char where
  "nl = CHR 0x0A"

definition qif_account_tpl :: "string \<Rightarrow> string \<Rightarrow> string" where
  \<comment> \<open>the arguments are the fields \<^verbatim>\<open>name\<close> and \<^verbatim>\<open>type\<close> of the template\<close>
  "qif_account_tpl f_name f_type =
     ''!Account'' @ [nl] @ ''N'' @ f_name @ [nl] @ ''T'' @ f_type @ [nl] @ ''^''"

definition qif_tpl_plain_tsx ::
  "string \<Rightarrow> string \<Rightarrow> string \<Rightarrow> string \<Rightarrow> string \<Rightarrow> string \<Rightarrow> string" where
  \<comment> \<open>the arguments are the fields \<^verbatim>\<open>type\<close>, \<^verbatim>\<open>date\<close>, \<^verbatim>\<open>amount\<close>, \<^verbatim>\<open>payee\<close>,
      \<^verbatim>\<open>memo\<close> and \<^verbatim>\<open>ledger\<close> of the template\<close>
  "qif_tpl_plain_tsx f_type f_date f_amount f_payee f_memo f_ledger =
     ''!Type:'' @ f_type @ [nl] @ ''D'' @ f_date @ [nl] @ ''T'' @ f_amount @ [nl]
     @ ''C'' @ [nl] @ ''P'' @ f_payee @ [nl] @ ''M'' @ f_memo @ [nl]
     @ ''L'' @ f_ledger @ [nl] @ ''^''"

definition get_account :: "registry \<Rightarrow> string \<Rightarrow> error + string" where
  \<comment> \<open>\<^verbatim>\<open>_get_account\<close>: \<^verbatim>\<open>accounts[iban]\<close> raises \<^verbatim>\<open>KeyError\<close> on a missing key.\<close>
  "get_account accounts iban =
     (case accounts iban of None \<Rightarrow> Inl (KeyError iban) | Some name \<Rightarrow> Inr name)"

definition nn :: "string option \<Rightarrow> string" where
  \<comment> \<open>\<^verbatim>\<open>v if v else ''\<close>\<close>
  "nn v = (case v of None \<Rightarrow> [] | Some s \<Rightarrow> s)"

definition get_qif_tx :: "registry \<Rightarrow> Trsx \<Rightarrow> error + string" where
  \<comment> \<open>the entries of the dictionary \<^verbatim>\<open>var\<close> are the variables \<open>var_...\<close>\<close>
  "get_qif_tx accounts self =
     (let var_type = ttype self;
          var_date = strftime (date self) ''/'';
          var_amount = float_str (amount self);
          var_payee = nn (payee self)
      in if is_transfer_transaction accounts self then
           (case dest_iban self of
              None \<Rightarrow> Inl (KeyError ''None'')
            | Some d \<Rightarrow>
                (case get_account accounts d of
                   Inl e \<Rightarrow> Inl e
                 | Inr name \<Rightarrow>
                     Inr (qif_tpl_plain_tsx var_type var_date var_amount var_payee
                            (if memo self = None then ''Transfer'' else nn (memo self))
                            (''['' @ name @ '']''))))
         else Inr (qif_tpl_plain_tsx var_type var_date var_amount var_payee
                     (nn (memo self)) []))"

text \<open>
  Class \<^verbatim>\<open>QIFOutput\<close>. \<^verbatim>\<open>self.accounts\<close> is a dictionary that keeps its keys in the order
  of their insertion: a list of pairs. \<^verbatim>\<open>self._transaction_list\<close> is a set of records,
  kept here as the list of its members in the order they were added. A record is in the
  set when a member has its hash and is equal to it by \<^verbatim>\<open>__eq__\<close>; every record that
  the program adds is a new object, so no member is found by identity.
\<close>

record QIFOutput =
  self_accounts :: "(string \<times> string list) list"
  transaction_list :: "Trsx list"
  added :: nat
  skipped :: nat

definition QIFOutput_init :: QIFOutput where
  "QIFOutput_init = \<lparr> self_accounts = [], transaction_list = [], added = 0, skipped = 0 \<rparr>"

definition set_contains :: "Trsx list \<Rightarrow> Trsx \<Rightarrow> bool" where
  \<comment> \<open>\<^verbatim>\<open>transaction in self._transaction_list\<close>\<close>
  "set_contains members transaction =
     list_ex (\<lambda>e. trsx_hash e = trsx_hash transaction \<and> trsx_eq e transaction) members"

fun list_append :: "string \<Rightarrow> string \<Rightarrow> (string \<times> string list) list
                    \<Rightarrow> (string \<times> string list) list" where
  \<comment> \<open>\<^verbatim>\<open>d[k].append(v)\<close> on a dictionary that has the key \<open>k\<close>\<close>
  "list_append k v [] = []"
| "list_append k v ((k', l) # d) =
     (if k' = k then (k', l @ [v]) # d else (k', l) # list_append k v d)"

definition get_list :: "registry \<Rightarrow> QIFOutput \<Rightarrow> string \<Rightarrow> error option \<times> QIFOutput" where
  \<comment> \<open>\<^verbatim>\<open>_get_list\<close>: the empty list is stored before \<^verbatim>\<open>_get_account\<close> can raise.\<close>
  "get_list accounts self account =
     (if map_of (self_accounts self) account = None then
        (let self1 = self\<lparr> self_accounts := self_accounts self @ [(account, [])] \<rparr>
         in case get_account accounts account of
              Inl e \<Rightarrow> (Some e, self1)
            | Inr name \<Rightarrow>
                (None, self1\<lparr> self_accounts :=
                   list_append account (qif_account_tpl name ''Bank'') (self_accounts self1) \<rparr>))
      else (None, self))"

definition iadd :: "registry \<Rightarrow> QIFOutput \<Rightarrow> Trsx \<Rightarrow> error option \<times> QIFOutput" where
  \<comment> \<open>\<^verbatim>\<open>QIFOutput.__iadd__\<close>; the message printed under \<^verbatim>\<open>--verbose\<close> is left out.\<close>
  "iadd accounts self transaction =
     (if \<not> set_contains (transaction_list self) transaction then
        (case get_list accounts self (source_iban transaction) of
           (Some e, self1) \<Rightarrow> (Some e, self1)
         | (None, self1) \<Rightarrow>
             (case get_qif_tx accounts transaction of
                Inl e \<Rightarrow> (Some e, self1)
              | Inr block \<Rightarrow>
                  (None, self1\<lparr> self_accounts :=
                                  list_append (source_iban transaction) block
                                    (self_accounts self1),
                                transaction_list := transaction_list self1 @ [transaction],
                                added := added self1 + 1 \<rparr>)))
      else (None, self\<lparr> skipped := skipped self + 1 \<rparr>))"


section \<open>The run\<close>







section \<open>The grouping that the specification describes\<close>





section \<open>Example values\<close>

text \<open>Concrete records, entries and registries on which the theorems below are run.\<close>

definition ex_date :: datetime where
  "ex_date = \<lparr> year = 2024, month = 1, day = 2 \<rparr>"

definition ex_transfer :: Trsx where
  "ex_transfer = \<lparr> source_iban = ''NL01'', dest_iban = Some ''NL02'', ttype = ''Bank'',
                    date = ex_date, amount = PyFloat True ''12.5'', payee = Some ''J SMITH'',
                    memo = None,
                    transaction_desc = ''/TRTP/SEPA/NAME/J SMITH/IBAN/NL02/EREF/X'' \<rparr>"


definition ex_registry :: registry where
  "ex_registry = [''NL01'' \<mapsto> ''Checking'', ''NL02'' \<mapsto> ''Savings'']"


definition ex_again :: Trsx where
  \<comment> \<open>the transfer of \<open>ex_transfer\<close> read a second time, from another narrative text\<close>
  "ex_again = ex_transfer\<lparr> transaction_desc := ''/TRTP/SEPA/IBAN/NL02/NAME/J SMITH/EREF/X'' \<rparr>"


definition ex_other_kind :: Trsx where
  \<comment> \<open>\<open>ex_transfer\<close> with another type: the same fingerprint fields and payee\<close>
  "ex_other_kind = ex_transfer\<lparr> ttype := ''Cash'' \<rparr>"







definition ex_out1 :: QIFOutput where
  \<comment> \<open>the output after \<open>ex_transfer\<close> has been added to the empty one\<close>
  "ex_out1 =
     \<lparr> self_accounts =
         [(''NL01'', [qif_account_tpl ''Checking'' ''Bank'',
                      qif_tpl_plain_tsx ''Bank'' ''2024/01/02'' ''-12.5'' ''J SMITH''
                        ''Transfer'' ''[Savings]''])],
       transaction_list = [ex_transfer], added = 1, skipped = 0 \<rparr>"

section \<open>The transaction record: complement of a transfer\<close>



lemma float_eq_trans: "float_eq x y \<Longrightarrow> float_eq y z \<Longrightarrow> float_eq x z"
  by (cases x; cases y; cases z) auto






section \<open>The classifier: sign of the amount\<close>



section \<open>The classifier: fields of a structured transfer\<close>

lemma rx_match_length:
  "p \<in> set (rx_match r g s) \<Longrightarrow> length (snd p) \<le> length s"
proof (induction r arbitrary: g s p)
  case (Lit l)
  then show ?case by (auto split: if_splits)
next
  case (One c)
  then show ?case by (auto split: list.splits if_splits)
next
  case (Plus c)
  then show ?case by auto
next
  case (Seq a b)
  from Seq.prems obtain q where q: "q \<in> set (rx_match a g s)"
    and p: "p \<in> set (rx_match b (fst q) (snd q))"
    by auto
  from Seq.IH(1) [OF q] Seq.IH(2) [OF p] show ?case by simp
next
  case (Alt a b)
  from Alt.prems have "p \<in> set (rx_match a g s) \<or> p \<in> set (rx_match b g s)"
    by simp
  with Alt.IH show ?case by blast
next
  case (Grp n a)
  from Grp.prems obtain q where "q \<in> set (rx_match a g s)" and "snd p = snd q"
    by auto
  with Grp.IH [of q g s] show ?case by simp
qed

lemma markers_match_nonempty:
  assumes "p \<in> set (rx_match SEPA_markers_re g s)"
  shows "length (snd p) < length s"
proof -
  obtain r where r: "SEPA_markers_re = Seq (Lit ''/'') r"
    by (simp add: SEPA_markers_re_def)
  from assms have a: "take (Suc 0) s = ''/''"
    and b: "p \<in> set (rx_match r g (drop (Suc 0) s))"
    unfolding r by (auto split: if_splits)
  from a have "length (drop (Suc 0) s) < length s"
    by (cases s) auto
  with rx_match_length [OF b] show ?thesis by simp
qed

lemma search_markers_mend:
  "search_from SEPA_markers_re pos s = Some m \<Longrightarrow> 0 < mend m"
proof (induction s arbitrary: pos)
  case Nil
  then show ?case
    using markers_match_nonempty [of _ "[]" "[]"]
    by (auto split: list.splits)
next
  case (Cons c cs)
  show ?case
  proof (cases "rx_match SEPA_markers_re [] (c # cs)")
    case Nil
    with Cons show ?thesis by simp
  next
    case (Cons p ps)
    then have "p \<in> set (rx_match SEPA_markers_re [] (c # cs))" by simp
    from markers_match_nonempty [OF this] Cons Cons.prems show ?thesis
      by auto
  qed
qed

lemma finditer_from_mend:
  "\<forall>pos s m. search_from r pos s = Some m \<longrightarrow> 0 < mend m \<Longrightarrow>
   m \<in> set (finditer_from r pos s) \<Longrightarrow> 0 < mend m"
proof (induction r pos s rule: finditer_from.induct)
  case (1 r pos s)
  show ?case
  proof (cases "search_from r pos s")
    case None
    with "1.prems" show ?thesis by (subst (asm) finditer_from.simps) simp
  next
    case (Some m')
    from "1.prems"(2) Some have "m = m' \<or> (pos < mend m' \<and> s \<noteq> [] \<and>
        m \<in> set (finditer_from r (mend m') (drop (mend m' - pos) s)))"
      by (subst (asm) finditer_from.simps) (auto split: if_splits)
    then show ?thesis
    proof
      assume "m = m'"
      with "1.prems"(1) Some show ?thesis by blast
    next
      assume "pos < mend m' \<and> s \<noteq> [] \<and>
        m \<in> set (finditer_from r (mend m') (drop (mend m' - pos) s))"
      with "1.IH" [OF Some] "1.prems"(1) show ?thesis by blast
    qed
  qed
qed

lemma finditer_markers_mend:
  "m \<in> set (finditer SEPA_markers_re s) \<Longrightarrow> 0 < mend m"
  unfolding finditer_def
  using search_markers_mend by (blast intro: finditer_from_mend)

lemma loop_started:
  assumes "0 < st" and "\<forall>m\<in>set ms. 0 < mend m"
  shows "find_sepa_field_loop info field (Some st) ms =
     (if dropWhile (\<lambda>m. match_group m ''1'' = Some field) ms = [] then None
      else Some (slice info
             (last (st # map mend (takeWhile (\<lambda>m. match_group m ''1'' = Some field) ms)))
             (mstart (hd (dropWhile (\<lambda>m. match_group m ''1'' = Some field) ms)))))"
  using assms
proof (induction ms arbitrary: st)
  case Nil
  then show ?case by simp
next
  case (Cons m ms)
  show ?case
  proof (cases "match_group m ''1'' = Some field")
    case True
    with Cons.prems have "0 < mend m" by simp
    from Cons.IH [OF this] Cons.prems True show ?thesis
      by simp
  next
    case False
    with Cons.prems show ?thesis by simp
  qed
qed

lemma loop_fresh:
  "find_sepa_field_loop info field None ms =
     (if dropWhile (\<lambda>m. match_group m ''1'' \<noteq> Some field) ms = [] then None
      else find_sepa_field_loop info field
             (Some (mend (hd (dropWhile (\<lambda>m. match_group m ''1'' \<noteq> Some field) ms))))
             (tl (dropWhile (\<lambda>m. match_group m ''1'' \<noteq> Some field) ms)))"
proof (induction ms)
  case Nil
  then show ?case by simp
next
  case (Cons m ms)
  then show ?case by (cases "match_group m ''1'' = Some field") auto
qed

lemma find_sepa_field_scan:
  assumes "search SEPA_re info \<noteq> None"
  shows "find_sepa_field info field =
     (let from_first = dropWhile (\<lambda>m. match_group m ''1'' \<noteq> Some field)
                         (finditer SEPA_markers_re info);
          run = takeWhile (\<lambda>m. match_group m ''1'' = Some field) from_first;
          after = dropWhile (\<lambda>m. match_group m ''1'' = Some field) from_first
      in if run = [] \<or> after = [] then None
         else Some (slice info (mend (last run)) (mstart (hd after))))"
proof -
  let ?ms = "finditer SEPA_markers_re info"
  let ?is = "\<lambda>m. match_group m ''1'' = Some field"
  have loop: "find_sepa_field info field = find_sepa_field_loop info field None ?ms"
    using assms by (simp add: find_sepa_field_def)
  show ?thesis
  proof (cases "dropWhile (\<lambda>m. \<not> ?is m) ?ms")
    case Nil
    then have "find_sepa_field info field = None"
      unfolding loop by (subst loop_fresh) simp
    then show ?thesis
      unfolding Let_def Nil by simp
  next
    case (Cons m rest)
    from hd_dropWhile [of "\<lambda>m. \<not> ?is m" ?ms] Cons have m: "?is m"
      by simp
    have "set (m # rest) \<subseteq> set ?ms"
      using set_dropWhileD [of _ "\<lambda>m. \<not> ?is m" ?ms] Cons by auto
    with finditer_markers_mend have pm: "0 < mend m" and prest: "\<forall>m\<in>set rest. 0 < mend m"
      by auto
    have "find_sepa_field info field = find_sepa_field_loop info field (Some (mend m)) rest"
      unfolding loop using Cons by (subst loop_fresh) simp
    also have "\<dots> = (if dropWhile ?is rest = [] then None
      else Some (slice info (last (mend m # map mend (takeWhile ?is rest)))
                   (mstart (hd (dropWhile ?is rest)))))"
      by (rule loop_started [OF pm prest])
    also have "last (mend m # map mend (takeWhile ?is rest)) = mend (last (m # takeWhile ?is rest))"
      by (simp add: last_map)
    finally show ?thesis
      using Cons m by (simp add: Let_def)
  qed
qed

text \<open>
  C10, amended. On a narrative in which \<^verbatim>\<open>SEPA_re\<close> matches (it holds \<^verbatim>\<open>/TRTP/\<close>
  and a character after it), the field is found from the first marker of the requested
  tag: the markers of that tag that follow it without another tag between form a run, and
  when a marker of another tag comes after the run, the value is the text from the end of
  the last marker of the run to the start of that marker.
\<close>

theorem find_sepa_field_repeated_tag:
  assumes "search SEPA_re info \<noteq> None"
    and "from_first = dropWhile (\<lambda>m. match_group m ''1'' \<noteq> Some field)
                        (finditer SEPA_markers_re info)"
    and "dropWhile (\<lambda>m. match_group m ''1'' = Some field) from_first \<noteq> []"
  shows "find_sepa_field info field =
           Some (slice info
                   (mend (last (takeWhile (\<lambda>m. match_group m ''1'' = Some field) from_first)))
                   (mstart (hd (dropWhile (\<lambda>m. match_group m ''1'' = Some field) from_first))))"
proof -
  let ?is = "\<lambda>m. match_group m ''1'' = Some field"
  from assms(3) obtain m ms where from_first: "from_first = m # ms"
    by (cases from_first) auto
  then have "dropWhile (\<lambda>m. \<not> ?is m) (finditer SEPA_markers_re info) = m # ms"
    using assms(2) by simp
  from hd_dropWhile [of "\<lambda>m. \<not> ?is m" "finditer SEPA_markers_re info"] this
  have "?is m"
    by simp
  with from_first have run: "takeWhile ?is from_first \<noteq> []"
    by simp
  have "find_sepa_field info field =
     (let from_first = from_first;
          run = takeWhile ?is from_first;
          after = dropWhile ?is from_first
      in if run = [] \<or> after = [] then None
         else Some (slice info (mend (last run)) (mstart (hd after))))"
    unfolding assms(2) by (rule find_sepa_field_scan [OF assms(1)])
  also have "\<dots> = Some (slice info (mend (last (takeWhile ?is from_first)))
                         (mstart (hd (dropWhile ?is from_first))))"
    unfolding Let_def using run assms(3) by (simp only: simp_thms if_False)
  finally show ?thesis .
qed

theorem find_sepa_field_repeated_tag_witness:
  "search SEPA_re ''/TRTP/SEPA/REMI/a/REMI/b/IBAN/x'' \<noteq> None
   \<and> find_sepa_field ''/TRTP/SEPA/REMI/a/REMI/b/IBAN/x'' ''REMI'' = Some ''b''
   \<and> search SEPA_re ''/TRTP/SEPA/REMI/a/IBAN/x/REMI/b/EREF/y'' \<noteq> None
   \<and> find_sepa_field ''/TRTP/SEPA/REMI/a/IBAN/x/REMI/b/EREF/y'' ''REMI'' = Some ''a''"
proof -
  let ?is = "\<lambda>m. match_group m ''1'' = Some ''REMI''"
  let ?m1 = "dropWhile (\<lambda>m. \<not> ?is m) (finditer SEPA_markers_re ''/TRTP/SEPA/REMI/a/REMI/b/IBAN/x'')"
  let ?m2 = "dropWhile (\<lambda>m. \<not> ?is m)
               (finditer SEPA_markers_re ''/TRTP/SEPA/REMI/a/IBAN/x/REMI/b/EREF/y'')"
  have s1: "search SEPA_re ''/TRTP/SEPA/REMI/a/REMI/b/IBAN/x'' \<noteq> None"
    by code_simp
  have s2: "search SEPA_re ''/TRTP/SEPA/REMI/a/IBAN/x/REMI/b/EREF/y'' \<noteq> None"
    by code_simp
  have n1: "dropWhile ?is ?m1 \<noteq> []"
    by code_simp
  have n2: "dropWhile ?is ?m2 \<noteq> []"
    by code_simp
  have r1: "Some (slice ''/TRTP/SEPA/REMI/a/REMI/b/IBAN/x'' (mend (last (takeWhile ?is ?m1)))
                    (mstart (hd (dropWhile ?is ?m1)))) = Some ''b''"
    by code_simp
  have r2: "Some (slice ''/TRTP/SEPA/REMI/a/IBAN/x/REMI/b/EREF/y''
                    (mend (last (takeWhile ?is ?m2)))
                    (mstart (hd (dropWhile ?is ?m2)))) = Some ''a''"
    by code_simp
  from find_sepa_field_repeated_tag [OF s1 refl n1] r1
  have f1: "find_sepa_field ''/TRTP/SEPA/REMI/a/REMI/b/IBAN/x'' ''REMI'' = Some ''b''"
    by (rule trans)
  from find_sepa_field_repeated_tag [OF s2 refl n2] r2
  have f2: "find_sepa_field ''/TRTP/SEPA/REMI/a/IBAN/x/REMI/b/EREF/y'' ''REMI'' = Some ''a''"
    by (rule trans)
  from s1 f1 s2 f2 show ?thesis by blast
qed

text \<open>
  C10, as stated, fails on its own two narratives: neither holds \<^verbatim>\<open>/TRTP/\<close>, so
  \<^verbatim>\<open>SEPA_re\<close> does not match and \<open>find_sepa_field\<close> returns \<^verbatim>\<open>None\<close> before it looks
  at any marker.
\<close>

theorem find_sepa_field_without_trtp_counterexample:
  "find_sepa_field ''/REMI/a/REMI/b/IBAN/x'' ''REMI'' = None
   \<and> find_sepa_field ''/REMI/a/IBAN/x/REMI/b/EREF/y'' ''REMI'' = None"
  by code_simp

text \<open>
  C4. The claim says that a value is returned whenever the tag occurs. The loop returns
  only when it meets a marker of another tag after the requested one; when the requested
  tag is the last marker of the narrative the loop ends and the result is \<^verbatim>\<open>None\<close>. Here
  \<^verbatim>\<open>REMI\<close> occurs, as the last of four markers, and nothing is returned for it.
\<close>

theorem find_sepa_field_last_tag_absent:
  "search SEPA_re
     ''/TRTP/SEPA OVERBOEKING/IBAN/NL00BANK0123456789/NAME/J SMITH/REMI/INVOICE 42'' \<noteq> None
   \<and> map (\<lambda>m. match_group m ''1'')
       (finditer SEPA_markers_re
          ''/TRTP/SEPA OVERBOEKING/IBAN/NL00BANK0123456789/NAME/J SMITH/REMI/INVOICE 42'')
     = [Some ''TRTP'', Some ''IBAN'', Some ''NAME'', Some ''REMI'']
   \<and> find_sepa_field
       ''/TRTP/SEPA OVERBOEKING/IBAN/NL00BANK0123456789/NAME/J SMITH/REMI/INVOICE 42''
       ''REMI'' = None
   \<and> find_sepa_field
       ''/TRTP/SEPA OVERBOEKING/IBAN/NL00BANK0123456789/NAME/J SMITH/REMI/INVOICE 42''
       ''NAME'' = Some ''J SMITH''"
  by code_simp

section \<open>The classifier: unrecognized narratives\<close>






section \<open>The output aggregator: duplicates\<close>

text \<open>The definitions that a run on concrete values unfolds.\<close>

lemmas run_defs = iadd_def get_list_def get_account_def get_qif_tx_def set_contains_def
  trsx_hash_def trsx_eq_def is_transfer_transaction_def QIFOutput_init_def
  qif_account_tpl_def qif_tpl_plain_tsx_def strftime_def pad2_def pad4_def digit_def
  nn_def str_opt_def nl_def Let_def

lemma trsx_eq_trans: "trsx_eq a b \<Longrightarrow> trsx_eq b c \<Longrightarrow> trsx_eq a c"
  by (auto simp: trsx_eq_def intro: float_eq_trans)


lemma set_contains_append:
  "set_contains (xs @ [t]) u =
     (set_contains xs u \<or> (trsx_hash t = trsx_hash u \<and> trsx_eq t u))"
  by (auto simp: set_contains_def list_ex_iff)

lemma set_contains_same:
  assumes "set_contains xs t" and "trsx_hash t = trsx_hash u" and "trsx_eq t u"
  shows "set_contains xs u"
  using assms by (auto simp: set_contains_def list_ex_iff intro: trsx_eq_trans)

lemma get_list_fields:
  "get_list accounts s k = (r, s1) \<Longrightarrow>
   transaction_list s1 = transaction_list s \<and> added s1 = added s \<and> skipped s1 = skipped s"
  by (auto simp: get_list_def Let_def split: if_splits sum.splits)

lemma iadd_duplicate:
  "set_contains (transaction_list s) t \<Longrightarrow>
   iadd accounts s t = (None, s\<lparr> skipped := skipped s + 1 \<rparr>)"
  by (simp add: iadd_def)

lemma iadd_new:
  assumes "\<not> set_contains (transaction_list s) t"
  shows "iadd accounts s t =
     (case get_list accounts s (source_iban t) of
        (Some e, s1) \<Rightarrow> (Some e, s1)
      | (None, s1) \<Rightarrow>
          (case get_qif_tx accounts t of
             Inl e \<Rightarrow> (Some e, s1)
           | Inr block \<Rightarrow>
               (None, s1\<lparr> self_accounts := list_append (source_iban t) block (self_accounts s1),
                          transaction_list := transaction_list s @ [t],
                          added := added s + 1 \<rparr>)))"
proof -
  obtain r s1 where g: "get_list accounts s (source_iban t) = (r, s1)"
    by (cases "get_list accounts s (source_iban t)")
  from get_list_fields [OF g] g assms show ?thesis
    by (auto simp: iadd_def split: option.splits sum.splits)
qed

lemma iadd_transaction_list:
  assumes "iadd accounts s t = (None, s1)"
  shows "transaction_list s1 =
           (if set_contains (transaction_list s) t then transaction_list s
            else transaction_list s @ [t])"
proof (cases "set_contains (transaction_list s) t")
  case True
  with assms show ?thesis by (auto simp: iadd_duplicate)
next
  case False
  with assms show ?thesis
    by (auto simp: iadd_new split: prod.splits option.splits sum.splits)
qed

text \<open>
  C8, amended. When a record \<open>t\<close> has been added and a record \<open>u\<close> that is the same
  transaction for the set (the same hash, and equal to \<open>t\<close> by \<open>trsx_eq\<close>, type and payee
  included, as a second copy of \<open>t\<close> is) is added next, the second add raises the skipped
  counter by one and leaves the accepted counter, the per-account lists and the set of
  accepted records as they were after the first add.
\<close>

theorem second_add_is_skipped:
  assumes "iadd accounts s t = (None, s1)"
    and "trsx_hash t = trsx_hash u" and "trsx_eq t u"
  shows "\<exists>s2. iadd accounts s1 u = (None, s2)
              \<and> skipped s2 = skipped s1 + 1
              \<and> added s2 = added s1
              \<and> self_accounts s2 = self_accounts s1
              \<and> transaction_list s2 = transaction_list s1"
proof -
  have "set_contains (transaction_list s1) u"
  proof (cases "set_contains (transaction_list s) t")
    case True
    with iadd_transaction_list [OF assms(1)] set_contains_same [OF True assms(2,3)]
    show ?thesis by simp
  next
    case False
    with iadd_transaction_list [OF assms(1)] assms(2,3)
    show ?thesis by (simp add: set_contains_append)
  qed
  then have "iadd accounts s1 u = (None, s1\<lparr> skipped := skipped s1 + 1 \<rparr>)"
    by (rule iadd_duplicate)
  then show ?thesis by simp
qed


theorem second_add_is_skipped_witness:
  "iadd ex_registry QIFOutput_init ex_transfer = (None, ex_out1)
   \<and> trsx_hash ex_transfer = trsx_hash ex_again
   \<and> trsx_eq ex_transfer ex_again
   \<and> (\<exists>s2. iadd ex_registry ex_out1 ex_again = (None, s2)
            \<and> skipped s2 = 1 \<and> added s2 = 1
            \<and> self_accounts s2 = self_accounts ex_out1
            \<and> transaction_list s2 = [ex_transfer])"
proof -
  have a: "iadd ex_registry QIFOutput_init ex_transfer = (None, ex_out1)"
    by (simp add: run_defs ex_registry_def ex_transfer_def ex_date_def ex_out1_def)
  have b: "trsx_hash ex_transfer = trsx_hash ex_again"
    by (simp add: run_defs ex_registry_def ex_transfer_def ex_date_def ex_again_def)
  have c: "trsx_eq ex_transfer ex_again"
    by (simp add: run_defs ex_registry_def ex_transfer_def ex_date_def ex_again_def)
  have d: "skipped ex_out1 = 0" "added ex_out1 = 1" "transaction_list ex_out1 = [ex_transfer]"
    by (simp_all add: ex_out1_def)
  from second_add_is_skipped [OF a b c] a b c d show ?thesis
    by auto
qed






text \<open>
  C8, as stated, fails. \<open>ex_other_kind\<close> has the fingerprint of \<open>ex_transfer\<close>, the
  hash is the same, but the type is another: added after \<open>ex_transfer\<close> it is not
  skipped. The accepted counter goes up, the list of the account gets a second block and
  the set a second record.
\<close>

theorem second_add_same_fingerprint_counterexample:
  "trsx_hash ex_other_kind = trsx_hash ex_transfer
   \<and> iadd ex_registry QIFOutput_init ex_transfer = (None, ex_out1)
   \<and> iadd ex_registry ex_out1 ex_other_kind =
       (None, \<lparr> self_accounts =
                  [(''NL01'', [qif_account_tpl ''Checking'' ''Bank'',
                               qif_tpl_plain_tsx ''Bank'' ''2024/01/02'' ''-12.5'' ''J SMITH''
                                 ''Transfer'' ''[Savings]'',
                               qif_tpl_plain_tsx ''Cash'' ''2024/01/02'' ''-12.5'' ''J SMITH''
                                 ''Transfer'' ''[Savings]''])],
                transaction_list = [ex_transfer, ex_other_kind],
                added = 2, skipped = 0 \<rparr>)"
  by (simp add: run_defs ex_registry_def ex_transfer_def ex_date_def ex_out1_def ex_other_kind_def)




section \<open>The output aggregator: grouping by account\<close>

















section \<open>The run: what a failed run writes\<close>






















end
